theory Spec2Isabelle
  imports Complex_Main "HOL-Library.AList" "HOL-Library.List_Lexorder" "HOL-Library.Char_ord"
begin

section \<open>The data-cleaning pipeline of \<^verbatim>\<open>scripts/data_cleaning.py\<close>\<close>

text \<open>
  The script is a chain of functions over a pandas \<^verbatim>\<open>DataFrame\<close>. The embedding keeps a
  frame as its row labels (the pandas index) and its named columns, and renders each
  pandas, numpy and scikit-learn call the script makes by the documented behaviour of
  that call. Three idealisations are made throughout and are the scope of every theorem:
  \<^item> a \<^verbatim>\<open>float64\<close> is an exact real number, and \<^verbatim>\<open>NaN\<close> is a separate "missing" value
    (\<open>None\<close> in a numeric column), so rounding and infinities are not modelled; the
    arithmetic of \<^verbatim>\<open>StandardScaler\<close>, where rounding decides the result, is a parameter;
  \<^item> a Python \<^verbatim>\<open>str\<close> is a list of 8-bit characters with the ASCII reading of
    whitespace, letters and digits;
  \<^item> column names are unique and row labels are natural numbers, as
    \<^verbatim>\<open>read_csv\<close> produces them.
\<close>

subsection \<open>Strings\<close>

definition is_space :: "char \<Rightarrow> bool" where
  \<comment> \<open>\<^verbatim>\<open>str.isspace\<close> on ASCII: TAB, LF, VT, FF, CR, FS, GS, RS, US and the blank.\<close>
  "is_space c = (let n = (of_char c :: nat) in (9 \<le> n \<and> n \<le> 13) \<or> (28 \<le> n \<and> n \<le> 32))"

definition is_digit :: "char \<Rightarrow> bool" where
  "is_digit c = (let n = (of_char c :: nat) in 48 \<le> n \<and> n \<le> 57)"

definition is_word :: "char \<Rightarrow> bool" where
  \<comment> \<open>The regular expression class \<^verbatim>\<open>\w\<close> on ASCII: letters, digits and the underscore.\<close>
  "is_word c = (let n = (of_char c :: nat) in
     (48 \<le> n \<and> n \<le> 57) \<or> (65 \<le> n \<and> n \<le> 90) \<or> n = 95 \<or> (97 \<le> n \<and> n \<le> 122))"

definition upper_char :: "char \<Rightarrow> char" where
  "upper_char c = (let n = (of_char c :: nat) in if 97 \<le> n \<and> n \<le> 122 then char_of (n - 32) else c)"

definition strip :: "string \<Rightarrow> string" where
  \<comment> \<open>\<^verbatim>\<open>str.strip()\<close>: leading and trailing whitespace removed.\<close>
  "strip s = rev (dropWhile is_space (rev (dropWhile is_space s)))"

definition upper :: "string \<Rightarrow> string" where
  "upper s = map upper_char s"

definition replace_char :: "char \<Rightarrow> char \<Rightarrow> string \<Rightarrow> string" where
  \<comment> \<open>\<^verbatim>\<open>str.replace(a, b)\<close> for one-character \<open>a\<close> and \<open>b\<close>.\<close>
  "replace_char a b s = map (\<lambda>c. if c = a then b else c) s"

definition remove_char :: "char \<Rightarrow> string \<Rightarrow> string" where
  \<comment> \<open>\<^verbatim>\<open>str.replace(a, '')\<close> for a one-character \<open>a\<close>.\<close>
  "remove_char a s = filter (\<lambda>c. c \<noteq> a) s"

definition clean_name :: "string \<Rightarrow> string" where
  \<comment> \<open>One column name through the chain of \<^verbatim>\<open>clean_column_names\<close>: strip, upper, blank
     and hyphen to underscore, then every character matching \<^verbatim>\<open>[^\w_]\<close> removed.\<close>
  "clean_name s =
     filter is_word
       (replace_char (CHR ''-'') (CHR ''_'')
         (replace_char (CHR '' '') (CHR ''_'') (upper (strip s))))"

subsection \<open>Cells, columns and frames\<close>

datatype cell = NaN | Num real | Str string

text \<open>
  A column of a numeric dtype (\<^verbatim>\<open>int64\<close>, \<^verbatim>\<open>float64\<close>) holds numbers and gaps; a column of
  dtype \<^verbatim>\<open>object\<close> holds arbitrary cells. \<^verbatim>\<open>select_dtypes(include=[np.number])\<close> selects
  the former, \<^verbatim>\<open>exclude\<close> the latter.
\<close>

datatype column = NumCol "real option list" | ObjCol "cell list"

record frame =
  index :: "nat list"
  columns :: "(string \<times> column) list"

definition names :: "frame \<Rightarrow> string list" where
  "names df = map fst (columns df)"

definition getcol :: "frame \<Rightarrow> string \<Rightarrow> column option" where
  \<comment> \<open>\<^verbatim>\<open>df[col]\<close>, \<open>None\<close> where Python raises \<^verbatim>\<open>KeyError\<close>.\<close>
  "getcol df n = map_of (columns df) n"

definition setcol :: "string \<Rightarrow> column \<Rightarrow> frame \<Rightarrow> frame" where
  \<comment> \<open>\<^verbatim>\<open>df[col] = c\<close>: an existing column is replaced where it stands, a new one is appended.\<close>
  "setcol n c df = df\<lparr>columns := AList.update n c (columns df)\<rparr>"

definition dropcol :: "string \<Rightarrow> frame \<Rightarrow> frame" where
  \<comment> \<open>\<^verbatim>\<open>df.drop(columns=[col])\<close>.\<close>
  "dropcol n df = df\<lparr>columns := AList.delete n (columns df)\<rparr>"

definition clean_column_names :: "frame \<Rightarrow> frame" where
  "clean_column_names df = df\<lparr>columns := map (\<lambda>(n, c). (clean_name n, c)) (columns df)\<rparr>"

definition col_len :: "column \<Rightarrow> nat" where
  "col_len c = (case c of NumCol xs \<Rightarrow> length xs | ObjCol cs \<Rightarrow> length cs)"

definition wf_frame :: "frame \<Rightarrow> bool" where
  \<comment> \<open>What pandas maintains of a frame read from a file: the column names differ, the row
     labels differ, and every column has one cell per row.\<close>
  "wf_frame df = (distinct (names df) \<and> distinct (index df)
                  \<and> list_all (\<lambda>(n, c). col_len c = length (index df)) (columns df))"

subsection \<open>Library calls taken as parameters\<close>

text \<open>
  Two library behaviours are left open, so that every theorem holds whatever they are:
  \<open>to_float\<close> is what \<^verbatim>\<open>pd.to_numeric(..., errors='coerce')\<close> makes of one string (\<open>None\<close>
  where the string is not a number), and \<open>float_str\<close> is Python's \<^verbatim>\<open>str\<close> of a number.
\<close>

record pylib =
  to_float :: "string \<Rightarrow> real option"
  float_str :: "real \<Rightarrow> string"

fun digits_value :: "nat \<Rightarrow> string \<Rightarrow> nat option" where
  "digits_value acc [] = Some acc"
| "digits_value acc (c # cs) =
     (if is_digit c then digits_value (10 * acc + (of_char c - 48)) cs else None)"

definition dec_float :: "string \<Rightarrow> real option" where
  \<comment> \<open>The instance of \<open>to_float\<close> used by the examples: a run of decimal digits, possibly
     surrounded by whitespace, is its value; any other string counts as not a number.\<close>
  "dec_float s = (let t = strip s in if t = [] then None else map_option real (digits_value 0 t))"

subsection \<open>Series operations\<close>

fun dropna :: "real option list \<Rightarrow> real list" where
  "dropna [] = []"
| "dropna (None # xs) = dropna xs"
| "dropna (Some x # xs) = x # dropna xs"

definition median :: "real option list \<Rightarrow> real option" where
  \<comment> \<open>\<^verbatim>\<open>Series.median()\<close>: over the values present; missing when there is none.\<close>
  "median xs =
     (let s = sort (dropna xs); n = length s in
      if n = 0 then None
      else if odd n then Some (s ! (n div 2))
      else Some ((s ! (n div 2 - 1) + s ! (n div 2)) / 2))"

definition interp :: "real list \<Rightarrow> real \<Rightarrow> real" where
  \<comment> \<open>The value at the fractional position \<open>h\<close> of a sorted list, linearly interpolated
     between its two neighbours.\<close>
  "interp s h = (let k = nat \<lfloor>h\<rfloor> in s ! k + (h - real k) * (s ! (min (k + 1) (length s - 1)) - s ! k))"

definition quantile :: "real \<Rightarrow> real option list \<Rightarrow> real option" where
  \<comment> \<open>\<^verbatim>\<open>Series.quantile(q)\<close>: linear interpolation between the order statistics of the
     values present; missing when there is none.\<close>
  "quantile q xs =
     (let s = sort (dropna xs) in
      if s = [] then None else Some (interp s (real (length s - 1) * q)))"

definition fillna :: "real option \<Rightarrow> real option list \<Rightarrow> real option list" where
  \<comment> \<open>\<^verbatim>\<open>Series.fillna(v)\<close> on a numeric column; filling with \<^verbatim>\<open>NaN\<close> changes nothing.\<close>
  "fillna v xs = map (\<lambda>x. case x of None \<Rightarrow> v | Some r \<Rightarrow> Some r) xs"

definition to_cells :: "column \<Rightarrow> cell list" where
  "to_cells c = (case c of NumCol xs \<Rightarrow> map (\<lambda>x. case x of None \<Rightarrow> NaN | Some r \<Rightarrow> Num r) xs
                 | ObjCol cs \<Rightarrow> cs)"

definition all_missing :: "column \<Rightarrow> bool" where
  \<comment> \<open>\<^verbatim>\<open>Series.isna().all()\<close>; true of a column without rows.\<close>
  "all_missing c = list_all (\<lambda>x. x = NaN) (to_cells c)"

definition cell_to_float :: "pylib \<Rightarrow> cell \<Rightarrow> real option" where
  "cell_to_float L x = (case x of NaN \<Rightarrow> None | Num r \<Rightarrow> Some r | Str s \<Rightarrow> to_float L s)"

definition to_numeric :: "pylib \<Rightarrow> column \<Rightarrow> real option list" where
  \<comment> \<open>\<^verbatim>\<open>pd.to_numeric(col, errors='coerce')\<close>: a numeric column is returned as it is; in an
     object column a string that does not parse becomes missing.\<close>
  "to_numeric L c = (case c of NumCol xs \<Rightarrow> xs | ObjCol cs \<Rightarrow> map (cell_to_float L) cs)"

definition cell_str :: "pylib \<Rightarrow> cell \<Rightarrow> string" where
  "cell_str L x = (case x of NaN \<Rightarrow> ''nan'' | Num r \<Rightarrow> float_str L r | Str s \<Rightarrow> s)"

definition astype_str :: "pylib \<Rightarrow> column \<Rightarrow> string list" where
  \<comment> \<open>\<^verbatim>\<open>col.astype(str)\<close>: a missing cell becomes the text \<^verbatim>\<open>nan\<close>.\<close>
  "astype_str L c = map (cell_str L) (to_cells c)"

subsection \<open>Missing values\<close>

definition potential_num_cols :: "string list" where
  "potential_num_cols = [''RATING'', ''VOTES'', ''RunTime'', ''Gross'']"

definition potential_cat_cols :: "string list" where
  "potential_cat_cols = [''MOVIES'', ''YEAR'', ''GENRE'', ''ONE-LINE'', ''STARS'']"

definition modify_col :: "(column \<Rightarrow> column) \<Rightarrow> string \<Rightarrow> frame \<Rightarrow> frame" where
  \<comment> \<open>\<^verbatim>\<open>if col in df.columns: df[col] = f(df[col])\<close>.\<close>
  "modify_col f n df = (case getcol df n of None \<Rightarrow> df | Some c \<Rightarrow> setcol n (f c) df)"

definition coerce_numeric :: "pylib \<Rightarrow> string \<Rightarrow> column \<Rightarrow> real option list" where
  \<comment> \<open>The body of the first loop: the votes column loses its commas as text first.\<close>
  "coerce_numeric L n c =
     (if n = ''VOTES''
      then to_numeric L (ObjCol (map (\<lambda>s. Str (remove_char (CHR '','') s)) (astype_str L c)))
      else to_numeric L c)"

definition fill_median :: "column \<Rightarrow> column" where
  \<comment> \<open>The body of the second loop. The first loop has made the column numeric; an object
     column, which cannot arrive here, is passed on.\<close>
  "fill_median c = (case c of NumCol xs \<Rightarrow> NumCol (fillna (median xs) xs) | ObjCol cs \<Rightarrow> ObjCol cs)"

definition fill_unknown :: "column \<Rightarrow> column" where
  \<comment> \<open>The body of the third loop. Filling a numeric column that has gaps with a string
     turns it into an object column.\<close>
  "fill_unknown c =
     (if all_missing c then ObjCol (replicate (col_len c) (Str ''Unknown''))
      else case c of
             NumCol xs \<Rightarrow>
               if None \<in> set xs
               then ObjCol (map (\<lambda>x. case x of None \<Rightarrow> Str ''Unknown'' | Some r \<Rightarrow> Num r) xs)
               else NumCol xs
           | ObjCol cs \<Rightarrow> ObjCol (map (\<lambda>x. if x = NaN then Str ''Unknown'' else x) cs))"

definition strip_names :: "frame \<Rightarrow> frame" where
  \<comment> \<open>\<^verbatim>\<open>df.columns = df.columns.str.strip()\<close>.\<close>
  "strip_names df = df\<lparr>columns := map (\<lambda>(n, c). (strip n, c)) (columns df)\<rparr>"

definition dropna_columns :: "frame \<Rightarrow> frame" where
  \<comment> \<open>\<^verbatim>\<open>df.dropna(axis=1, how='all')\<close>: a column with no value present is dropped, and so is
     every column of a frame without rows.\<close>
  "dropna_columns df = df\<lparr>columns := filter (\<lambda>(n, c). \<not> all_missing c) (columns df)\<rparr>"

definition handle_missing_values :: "pylib \<Rightarrow> frame \<Rightarrow> frame" where
  "handle_missing_values L df =
     (let df1 = dropna_columns (strip_names df);
          num_cols = filter (\<lambda>n. n \<in> set (names df1)) potential_num_cols;
          cat_cols = filter (\<lambda>n. n \<in> set (names df1)) potential_cat_cols;
          df2 = fold (\<lambda>n. modify_col (\<lambda>c. NumCol (coerce_numeric L n c)) n) num_cols df1;
          df3 = fold (modify_col fill_median) num_cols df2;
          df4 = fold (modify_col fill_unknown) cat_cols df3
      in df4)"

subsection \<open>Year extraction\<close>

fun search_digits4 :: "string \<Rightarrow> string option" where
  \<comment> \<open>\<^verbatim>\<open>re.search(r'(\d{4})', s)\<close>: the leftmost four consecutive digits.\<close>
  "search_digits4 [] = None"
| "search_digits4 (c # s) =
     (if 4 \<le> length (c # s) \<and> list_all is_digit (take 4 (c # s)) then Some (take 4 (c # s))
      else search_digits4 s)"

fun search_paren_digits4 :: "string \<Rightarrow> string option" where
  \<comment> \<open>\<^verbatim>\<open>re.search(r'\((\d{4})', s)\<close>: the four digits after the leftmost opening
     parenthesis that four digits follow.\<close>
  "search_paren_digits4 [] = None"
| "search_paren_digits4 (c # s) =
     (if c = CHR ''('' \<and> 4 \<le> length s \<and> list_all is_digit (take 4 s) then Some (take 4 s)
      else search_paren_digits4 s)"

definition str_extract :: "(string \<Rightarrow> string option) \<Rightarrow> string list \<Rightarrow> cell list" where
  \<comment> \<open>\<^verbatim>\<open>Series.str.extract\<close> with one group: the group's text, missing where nothing matches.\<close>
  "str_extract rx ss = map (\<lambda>s. case rx s of None \<Rightarrow> NaN | Some g \<Rightarrow> Str g) ss"

datatype label = Name string | Pos nat

definition loc_assign_frame ::
    "bool list \<Rightarrow> label \<Rightarrow> (label \<times> cell list) list \<Rightarrow> cell list \<Rightarrow> cell list" where
  \<comment> \<open>\<^verbatim>\<open>df.loc[rows, item] = value\<close> where \<open>value\<close> is a frame (its columns given in full
     length, aligned with the rows of \<open>df\<close>): pandas aligns a frame on the column label
     too, and assigns \<^verbatim>\<open>NaN\<close> to the selected cells when \<open>value\<close> has no column labelled \<open>item\<close>.\<close>
  "loc_assign_frame rows item val old =
     map (\<lambda>(i, m, x). if m then (case map_of val item of None \<Rightarrow> NaN | Some vs \<Rightarrow> vs ! i) else x)
         (zip [0..<length old] (zip rows old))"

datatype error = FileNotFoundError | KeyError | IndexingError | ValueError | ReadError

definition extract_year_info :: "pylib \<Rightarrow> frame \<Rightarrow> error + frame" where
  \<comment> \<open>\<^verbatim>\<open>str.extract\<close> returns a frame whose one column is labelled with the integer 0
     (\<^verbatim>\<open>expand=True\<close> is the default). In line 94 that frame is assigned to a whole
     column, which takes its one column; in line 99 it is assigned through \<^verbatim>\<open>.loc\<close>.\<close>
  "extract_year_info L df =
     (case getcol df ''YEAR'' of
        None \<Rightarrow> Inr df
      | Some y \<Rightarrow>
          let yc = to_numeric L (ObjCol (str_extract search_digits4 (astype_str L y)));
              df1 = setcol ''YEAR_CLEANED'' (NumCol yc) df;
              missing_years = map (\<lambda>x. x = None) yc
          in if True \<in> set missing_years
             then (case getcol df1 ''MOVIES'' of
                     None \<Rightarrow> Inl KeyError
                   | Some m \<Rightarrow>
                       let extracted = [(Pos 0, str_extract search_paren_digits4 (astype_str L m))];
                           assigned = loc_assign_frame missing_years (Name ''YEAR_CLEANED'')
                                        extracted (to_cells (NumCol yc))
                       in Inr (setcol ''YEAR_CLEANED'' (NumCol (to_numeric L (ObjCol assigned))) df1))
             else Inr df1)"

subsection \<open>Duplicates\<close>

definition row :: "frame \<Rightarrow> nat \<Rightarrow> cell list" where
  "row df i = map (\<lambda>(n, c). to_cells c ! i) (columns df)"

definition take_col :: "nat list \<Rightarrow> column \<Rightarrow> column" where
  "take_col ps c = (case c of NumCol xs \<Rightarrow> NumCol (map (\<lambda>i. xs ! i) ps)
                    | ObjCol cs \<Rightarrow> ObjCol (map (\<lambda>i. cs ! i) ps))"

definition take_rows :: "nat list \<Rightarrow> frame \<Rightarrow> frame" where
  \<comment> \<open>The rows at the given positions, each with its label.\<close>
  "take_rows ps df =
     \<lparr>index = map (\<lambda>i. index df ! i) ps, columns = map (\<lambda>(n, c). (n, take_col ps c)) (columns df)\<rparr>"

definition remove_duplicates :: "frame \<Rightarrow> frame" where
  \<comment> \<open>\<^verbatim>\<open>df.drop_duplicates()\<close>: the first of equal rows is kept, and the rows kept keep
     their labels. A frame without columns is returned as it is.\<close>
  "remove_duplicates df =
     (if columns df = [] then df
      else take_rows [i \<leftarrow> [0..<length (index df)]. row df i \<notin> set (map (row df) [0..<i])] df)"

subsection \<open>Outliers\<close>

text \<open>
  A boolean \<^verbatim>\<open>Series\<close> is a map from row labels to truth values. \<^verbatim>\<open>a & b\<close> aligns the
  two on the union of their labels and is false at a label one of them lacks.
  \<^verbatim>\<open>df[mask]\<close> looks every label of \<open>df\<close> up in \<open>mask\<close> and raises \<^verbatim>\<open>IndexingError\<close> when
  one is absent.
\<close>

definition series_of :: "nat list \<Rightarrow> bool list \<Rightarrow> (nat \<rightharpoonup> bool)" where
  "series_of ls bs = map_of (zip ls bs)"

definition mask_and :: "(nat \<rightharpoonup> bool) \<Rightarrow> (nat \<rightharpoonup> bool) \<Rightarrow> (nat \<rightharpoonup> bool)" where
  "mask_and a b =
     (\<lambda>l. if a l = None \<and> b l = None then None else Some (a l = Some True \<and> b l = Some True))"

definition getitem_mask :: "frame \<Rightarrow> (nat \<rightharpoonup> bool) \<Rightarrow> error + frame" where
  "getitem_mask df m =
     (if list_all (\<lambda>l. m l \<noteq> None) (index df)
      then Inr (take_rows [i \<leftarrow> [0..<length (index df)]. m (index df ! i) = Some True] df)
      else Inl IndexingError)"

definition in_fence :: "real \<Rightarrow> real \<Rightarrow> real option \<Rightarrow> bool" where
  \<comment> \<open>\<^verbatim>\<open>(x >= Q1 - 1.5 * IQR) & (x <= Q3 + 1.5 * IQR)\<close>; a comparison with \<^verbatim>\<open>NaN\<close> is false.\<close>
  "in_fence q1 q3 x =
     (case x of None \<Rightarrow> False
      | Some v \<Rightarrow> q1 - 3 / 2 * (q3 - q1) \<le> v \<and> v \<le> q3 + 3 / 2 * (q3 - q1))"

definition fence_mask :: "real option list \<Rightarrow> bool list option" where
  \<comment> \<open>The column's mask when \<^verbatim>\<open>IQR > 0\<close>, which is false of a missing \<^verbatim>\<open>IQR\<close> too.\<close>
  "fence_mask xs =
     (case (quantile (1 / 4) xs, quantile (3 / 4) xs) of
        (Some q1, Some q3) \<Rightarrow> if q3 - q1 > 0 then Some (map (in_fence q1 q3) xs) else None
      | _ \<Rightarrow> None)"

definition is_numeric :: "column \<Rightarrow> bool" where
  "is_numeric c = (case c of NumCol xs \<Rightarrow> True | ObjCol cs \<Rightarrow> False)"

definition numeric_cols :: "frame \<Rightarrow> (string \<times> real option list) list" where
  \<comment> \<open>\<^verbatim>\<open>df.select_dtypes(include=[np.number])\<close>, each name with its column.\<close>
  "numeric_cols df =
     concat (map (\<lambda>(n, c). case c of NumCol xs \<Rightarrow> [(n, xs)] | ObjCol cs \<Rightarrow> []) (columns df))"

definition fence_step :: "nat list \<Rightarrow> string \<times> real option list \<Rightarrow> (nat \<rightharpoonup> bool) \<Rightarrow> (nat \<rightharpoonup> bool)" where
  \<comment> \<open>The body of the loop: \<^verbatim>\<open>if IQR > 0: mask = mask & col_mask\<close>, the column's mask
     carrying the row labels of the frame.\<close>
  "fence_step idx = (\<lambda>(name, xs) m.
      case fence_mask xs of None \<Rightarrow> m | Some bs \<Rightarrow> mask_and m (series_of idx bs))"

definition outlier_mask :: "frame \<Rightarrow> (nat \<rightharpoonup> bool)" where
  \<comment> \<open>The mask after the loop. It starts as \<^verbatim>\<open>pd.Series([True] * len(df))\<close>, which is
     labelled \<open>0, ..., len(df) - 1\<close> whatever the labels of \<open>df\<close> are.\<close>
  "outlier_mask df =
     fold (fence_step (index df)) (numeric_cols df)
       (series_of [0..<length (index df)] (replicate (length (index df)) True))"

definition remove_outliers :: "frame \<Rightarrow> error + frame" where
  \<comment> \<open>On a frame without rows the mask is \<^verbatim>\<open>pd.Series([])\<close>, which pandas does not take for
     a boolean indexer: \<^verbatim>\<open>df[mask]\<close> then selects the columns listed in it, that is none.\<close>
  "remove_outliers df =
     (if numeric_cols df = [] then Inr df
      else if index df = [] then Inr (df\<lparr>columns := []\<rparr>)
      else getitem_mask df (outlier_mask df))"

subsection \<open>Encoding\<close>

definition nunique :: "cell list \<Rightarrow> nat" where
  \<comment> \<open>\<^verbatim>\<open>Series.nunique()\<close>: the number of distinct values, missing cells not counted.\<close>
  "nunique cs = length (remdups (filter (\<lambda>x. x \<noteq> NaN) cs))"

fun index_of :: "'a list \<Rightarrow> 'a \<Rightarrow> nat" where
  "index_of [] y = 0"
| "index_of (x # xs) y = (if x = y then 0 else Suc (index_of xs y))"

definition label_encode :: "string list \<Rightarrow> real option list" where
  \<comment> \<open>\<^verbatim>\<open>LabelEncoder().fit_transform\<close>: the classes are the distinct strings in sorted
     order, and a string's code is its position among them.\<close>
  "label_encode ss = (let classes = sort (remdups ss) in map (\<lambda>s. Some (real (index_of classes s))) ss)"

definition encode_col :: "pylib \<Rightarrow> string \<Rightarrow> frame \<Rightarrow> frame" where
  \<comment> \<open>The body of the loop of \<^verbatim>\<open>encode_categorical\<close>.\<close>
  "encode_col L n df =
     (case getcol df n of
        None \<Rightarrow> df
      | Some c \<Rightarrow>
          if nunique (to_cells c) > 1 then setcol n (NumCol (label_encode (astype_str L c))) df
          else dropcol n df)"

definition categorical_cols :: "frame \<Rightarrow> string list" where
  \<comment> \<open>\<^verbatim>\<open>df.select_dtypes(exclude=[np.number]).columns\<close> without \<^verbatim>\<open>MOVIES\<close>.\<close>
  "categorical_cols df =
     filter (\<lambda>n. n \<noteq> ''MOVIES'') (map fst (filter (\<lambda>(n, c). \<not> is_numeric c) (columns df)))"

definition encode_categorical :: "pylib \<Rightarrow> frame \<Rightarrow> frame" where
  "encode_categorical L df = fold (encode_col L) (categorical_cols df) df"

subsection \<open>Scaling\<close>

definition endswith :: "string \<Rightarrow> string \<Rightarrow> bool" where
  "endswith s suffix = (length suffix \<le> length s \<and> drop (length s - length suffix) s = suffix)"

definition mean :: "real list \<Rightarrow> real" where
  "mean vs = sum_list vs / real (length vs)"

definition variance :: "real list \<Rightarrow> real" where
  \<comment> \<open>The population variance, as \<^verbatim>\<open>StandardScaler\<close> computes it.\<close>
  "variance vs = mean (map (\<lambda>v. (v - mean vs)\<^sup>2) vs)"

definition std :: "real list \<Rightarrow> real" where
  "std vs = sqrt (variance vs)"

type_synonym scaler = "real list \<Rightarrow> real \<Rightarrow> real"

definition standard_scale :: "scaler \<Rightarrow> real option list \<Rightarrow> real option list" where
  \<comment> \<open>\<^verbatim>\<open>StandardScaler().fit_transform\<close> on one column: missing cells are left out of the
     fit and stay missing. What the scaler's \<^verbatim>\<open>float64\<close> arithmetic (the mean, the variance,
     its test for a constant column, the subtraction and the division) makes of a value
     present is the parameter \<open>sv\<close>, given the values present in the column and the value.\<close>
  "standard_scale sv xs = map (map_option (sv (dropna xs))) xs"

definition exact_scale :: scaler where
  \<comment> \<open>The instance of the scaler used by the example: standardisation in exact
     arithmetic, a zero standard deviation replaced by 1. \<^verbatim>\<open>float64\<close> arithmetic gives the
     same where every intermediate value is representable, as for the codes 0 and 1.\<close>
  "exact_scale vs v = (v - mean vs) / (if std vs = 0 then 1 else std vs)"

definition scale_col :: "scaler \<Rightarrow> string \<Rightarrow> column \<Rightarrow> column" where
  \<comment> \<open>What the assignment \<^verbatim>\<open>df[cols_to_scale] = ...\<close> leaves in the column named \<open>n\<close>.\<close>
  "scale_col sv n c =
     (case c of
        NumCol xs \<Rightarrow> if endswith n ''_ENCODED'' then c else NumCol (standard_scale sv xs)
      | ObjCol cs \<Rightarrow> c)"

definition scale_features :: "scaler \<Rightarrow> frame \<Rightarrow> error + frame" where
  \<comment> \<open>\<^verbatim>\<open>fit_transform\<close> raises \<^verbatim>\<open>ValueError\<close> on an array without rows.\<close>
  "scale_features sv df =
     (let cols_to_scale = filter (\<lambda>n. \<not> endswith n ''_ENCODED'') (map fst (numeric_cols df)) in
      if cols_to_scale = [] then Inr df
      else if index df = [] then Inl ValueError
      else Inr (df\<lparr>columns := map (\<lambda>(n, c). (n, scale_col sv n c)) (columns df)\<rparr>))"

subsection \<open>The run\<close>

text \<open>
  The file system is a map from paths to files; reading a delimited file into a frame
  and writing a frame out are parameters, and reading may fail. The run also takes the
  two parameters of the stages: the library calls \<open>L\<close> and the scaler's arithmetic \<open>sv\<close>.
\<close>

definition load_data :: "('f \<Rightarrow> error + frame) \<Rightarrow> (string \<rightharpoonup> 'f) \<Rightarrow> string \<Rightarrow> error + frame" where
  "load_data read_csv fs path = (case fs path of None \<Rightarrow> Inl FileNotFoundError | Some f \<Rightarrow> read_csv f)"

definition save_cleaned_data :: "(frame \<Rightarrow> 'f) \<Rightarrow> frame \<Rightarrow> string \<Rightarrow> (string \<rightharpoonup> 'f) \<Rightarrow> (string \<rightharpoonup> 'f)" where
  "save_cleaned_data to_csv df output_path fs = fs(output_path \<mapsto> to_csv df)"

definition stages :: "pylib \<Rightarrow> scaler \<Rightarrow> frame \<Rightarrow> error + frame" where
  \<comment> \<open>The calls of \<^verbatim>\<open>main\<close> between loading and saving, in its order; the first stage
     that raises ends the chain.\<close>
  "stages L sv df =
     (case extract_year_info L (handle_missing_values L (clean_column_names df)) of
        Inl e \<Rightarrow> Inl e
      | Inr df1 \<Rightarrow>
          (case remove_outliers (remove_duplicates df1) of
             Inl e \<Rightarrow> Inl e
           | Inr df2 \<Rightarrow> scale_features sv (encode_categorical L df2)))"

definition main ::
    "pylib \<Rightarrow> scaler \<Rightarrow> ('f \<Rightarrow> error + frame) \<Rightarrow> (frame \<Rightarrow> 'f) \<Rightarrow> (string \<rightharpoonup> 'f)
       \<Rightarrow> (string \<rightharpoonup> 'f) \<times> (error + unit)" where
  \<comment> \<open>The file system after the run, and the exception re-raised by the handler or the
     normal return.\<close>
  "main L sv read_csv to_csv fs =
     (case load_data read_csv fs ''movies.csv'' of
        Inl e \<Rightarrow> (fs, Inl e)
      | Inr df \<Rightarrow>
          (case stages L sv df of
             Inl e \<Rightarrow> (fs, Inl e)
           | Inr df' \<Rightarrow> (save_cleaned_data to_csv df' ''cleaned_movies_data.csv'' fs, Inr ())))"

subsection \<open>Notions used in the statements\<close>

definition kept_rows :: "frame \<Rightarrow> nat list" where
  \<comment> \<open>The positions of the rows at whose label the final mask is true.\<close>
  "kept_rows df = [i \<leftarrow> [0..<length (index df)]. outlier_mask df (index df ! i) = Some True]"

definition encoded :: "pylib \<Rightarrow> column \<Rightarrow> column option" where
  \<comment> \<open>What one round of the encoder's loop makes of a column: its codes, or nothing.\<close>
  "encoded L c =
     (if 1 < nunique (to_cells c) then Some (NumCol (label_encode (astype_str L c))) else None)"


section \<open>Theorems\<close>

subsection \<open>Column names\<close>

lemma is_word_not_space: "is_word c \<Longrightarrow> \<not> is_space c"
  by (auto simp: is_word_def is_space_def Let_def)

lemma dropWhile_none: "\<forall>c \<in> set s. \<not> P c \<Longrightarrow> dropWhile P s = s"
  by (cases s) auto

lemma strip_no_space: "\<forall>c \<in> set s. \<not> is_space c \<Longrightarrow> strip s = s"
  by (simp add: strip_def dropWhile_none)

lemma upper_char_range:
  "97 \<le> (of_char c :: nat) \<Longrightarrow> of_char c \<le> (122::nat) \<Longrightarrow> of_char (upper_char c) = (of_char c :: nat) - 32"
  by (simp add: upper_char_def Let_def)

lemma upper_char_is_upper: "\<not> (97 \<le> (of_char (upper_char c) :: nat) \<and> of_char (upper_char c) \<le> (122::nat))"
  by (cases "97 \<le> (of_char c :: nat) \<and> of_char c \<le> (122::nat)")
     (auto simp: upper_char_range, auto simp: upper_char_def Let_def)

lemma clean_name_chars:
  assumes "c \<in> set (clean_name s)"
  shows "is_word c \<and> \<not> (97 \<le> (of_char c :: nat) \<and> of_char c \<le> (122::nat)) \<and> c \<noteq> CHR '' '' \<and> c \<noteq> CHR ''-''"
proof -
  from assms have w: "is_word c"
    by (simp add: clean_name_def)
  from assms obtain d where d: "d \<in> set (upper (strip s))"
    and c: "c = (if (if d = CHR '' '' then CHR ''_'' else d) = CHR ''-'' then CHR ''_''
                 else (if d = CHR '' '' then CHR ''_'' else d))"
    by (auto simp: clean_name_def replace_char_def)
  from d obtain e where "d = upper_char e"
    by (auto simp: upper_def)
  then have "\<not> (97 \<le> (of_char d :: nat) \<and> of_char d \<le> (122::nat))"
    using upper_char_is_upper by simp
  with c have "\<not> (97 \<le> (of_char c :: nat) \<and> of_char c \<le> (122::nat))"
    by (auto split: if_splits)
  moreover from w have "c \<noteq> CHR '' ''" and "c \<noteq> CHR ''-''"
    by (auto simp: is_word_def Let_def)
  ultimately show ?thesis using w by simp
qed

lemma clean_name_fixed:
  assumes "\<forall>c \<in> set s. is_word c \<and> \<not> (97 \<le> (of_char c :: nat) \<and> of_char c \<le> (122::nat))
             \<and> c \<noteq> CHR '' '' \<and> c \<noteq> CHR ''-''"
  shows "clean_name s = s"
proof -
  have s1: "strip s = s"
    using assms by (intro strip_no_space) (auto dest: is_word_not_space)
  have s2: "upper s = s"
    unfolding upper_def using assms by (intro map_idI) (auto simp: upper_char_def Let_def)
  have s3: "replace_char (CHR '' '') (CHR ''_'') s = s"
    unfolding replace_char_def using assms by (intro map_idI) auto
  have s4: "replace_char (CHR ''-'') (CHR ''_'') s = s"
    unfolding replace_char_def using assms by (intro map_idI) auto
  have s5: "filter is_word s = s"
    using assms by (simp add: filter_id_conv)
  show ?thesis
    by (simp add: clean_name_def s1 s2 s3 s4 s5)
qed

lemma clean_name_idem: "clean_name (clean_name s) = clean_name s"
  by (rule clean_name_fixed) (use clean_name_chars in blast)

subsection \<open>Frames\<close>

lemma map_of_map_keyed:
  "map_of (map (\<lambda>(k, v). (k, f k v)) al) n = map_option (f n) (map_of al n)"
  by (induction al) auto

lemma getcol_in_columns: "getcol df n = Some c \<Longrightarrow> (n, c) \<in> set (columns df)"
  by (simp add: getcol_def map_of_SomeD)

lemma getcol_distinct: "distinct (names df) \<Longrightarrow> (n, c) \<in> set (columns df) \<Longrightarrow> getcol df n = Some c"
  by (simp add: names_def getcol_def)

lemma names_getcol: "n \<in> set (names df) \<longleftrightarrow> getcol df n \<noteq> None"
  by (simp add: names_def getcol_def map_of_eq_None_iff)

lemma getcol_setcol: "getcol (setcol m c df) n = (if n = m then Some c else getcol df n)"
  by (simp add: getcol_def setcol_def update_conv')

lemma getcol_dropcol: "getcol (dropcol m df) n = (if n = m then None else getcol df n)"
  by (simp add: getcol_def dropcol_def delete_conv')

lemma getcol_modify_col:
  "getcol (modify_col f m df) n = (if n = m then map_option f (getcol df m) else getcol df n)"
  by (auto simp: modify_col_def getcol_setcol split: option.splits)

lemma getcol_fold_modify:
  "distinct ns \<Longrightarrow>
   getcol (fold (\<lambda>m. modify_col (g m) m) ns df) n
     = (if n \<in> set ns then map_option (g n) (getcol df n) else getcol df n)"
  by (induction ns arbitrary: df) (auto simp: getcol_modify_col)

lemma getcol_take_rows: "getcol (take_rows ps df) n = map_option (take_col ps) (getcol df n)"
  by (simp add: getcol_def take_rows_def map_of_map_keyed)


lemma index_take_rows: "index (take_rows ps df) = map (\<lambda>i. index df ! i) ps"
  by (simp add: take_rows_def)


lemma numeric_cols_iff: "(n, xs) \<in> set (numeric_cols df) \<longleftrightarrow> (n, NumCol xs) \<in> set (columns df)"
  by (auto simp: numeric_cols_def split: column.splits)

lemma numeric_cols_getcol: "getcol df n = Some (NumCol xs) \<Longrightarrow> (n, xs) \<in> set (numeric_cols df)"
  by (simp add: numeric_cols_iff getcol_in_columns)

lemma wf_numeric_length:
  "wf_frame df \<Longrightarrow> (n, xs) \<in> set (numeric_cols df) \<Longrightarrow> length xs = length (index df)"
  by (auto simp: numeric_cols_iff wf_frame_def list_all_iff col_len_def)

lemma index_take_rows_iff:
  assumes "distinct (index df)" "i < length (index df)" "set ps \<subseteq> {..<length (index df)}"
  shows "index df ! i \<in> set (index (take_rows ps df)) \<longleftrightarrow> i \<in> set ps"
proof
  assume "index df ! i \<in> set (index (take_rows ps df))"
  then obtain j where j: "j \<in> set ps" "index df ! j = index df ! i"
    by (auto simp: take_rows_def)
  with assms have "j = i" by (auto simp: nth_eq_iff_index_eq)
  with j show "i \<in> set ps" by simp
next
  assume "i \<in> set ps"
  then show "index df ! i \<in> set (index (take_rows ps df))" by (simp add: take_rows_def)
qed

subsection \<open>Quartiles\<close>

lemma interp_bounds:
  assumes "sorted s" "0 \<le> h" "h \<le> real (length s - 1)" "s \<noteq> []"
  shows "s ! nat \<lfloor>h\<rfloor> \<le> interp s h" and "interp s h \<le> s ! (min (nat \<lfloor>h\<rfloor> + 1) (length s - 1))"
proof -
  define k where "k = nat \<lfloor>h\<rfloor>"
  define a where "a = s ! k"
  define b where "b = s ! (min (k + 1) (length s - 1))"
  define t where "t = h - real k"
  have k_le: "real k \<le> h" using assms(2) by (simp add: k_def)
  have "k \<le> length s - 1" using assms(3) k_le by linarith
  then have kb: "k \<le> min (k + 1) (length s - 1)" by simp
  have "min (k + 1) (length s - 1) < length s" using assms(4) by (cases s) auto
  with kb assms(1) have ab: "a \<le> b" unfolding a_def b_def by (intro sorted_nth_mono) auto
  have t0: "0 \<le> t" using k_le by (simp add: t_def)
  have "h < real_of_int \<lfloor>h\<rfloor> + 1" by linarith
  moreover have "real_of_int \<lfloor>h\<rfloor> = real k" using assms(2) by (simp add: k_def)
  ultimately have t1: "t \<le> 1" by (simp add: t_def)
  have eq: "interp s h = a + t * (b - a)"
    by (simp add: interp_def Let_def k_def a_def b_def t_def)
  have "0 \<le> t * (b - a)" using t0 ab by simp
  then show "s ! nat \<lfloor>h\<rfloor> \<le> interp s h" using eq by (simp add: a_def k_def)
  have "t * (b - a) \<le> 1 * (b - a)" using t1 ab by (intro mult_right_mono) auto
  then show "interp s h \<le> s ! (min (nat \<lfloor>h\<rfloor> + 1) (length s - 1))"
    using eq by (simp add: b_def k_def)
qed

lemma interp_mono:
  assumes "sorted s" "0 \<le> h1" "h1 \<le> h2" "h2 \<le> real (length s - 1)" "s \<noteq> []"
  shows "interp s h1 \<le> interp s h2"
proof -
  define k1 where "k1 = nat \<lfloor>h1\<rfloor>"
  define k2 where "k2 = nat \<lfloor>h2\<rfloor>"
  have k12: "k1 \<le> k2" unfolding k1_def k2_def using assms(3) by (intro nat_mono floor_mono)
  show ?thesis
  proof (cases "k1 = k2")
    case True
    have "min (k1 + 1) (length s - 1) < length s" using assms(5) by (cases s) auto
    moreover have "real k1 \<le> h1" using assms(2) by (simp add: k1_def)
    then have "k1 \<le> length s - 1" using assms(3,4) by linarith
    ultimately have "s ! k1 \<le> s ! (min (k1 + 1) (length s - 1))"
      using assms(1) by (intro sorted_nth_mono) auto
    then have "(h1 - real k1) * (s ! (min (k1 + 1) (length s - 1)) - s ! k1)
             \<le> (h2 - real k1) * (s ! (min (k1 + 1) (length s - 1)) - s ! k1)"
      using assms(3) by (intro mult_right_mono) auto
    then show ?thesis
      using True by (simp add: interp_def Let_def k1_def [symmetric] k2_def [symmetric])
  next
    case False
    with k12 have lt: "k1 + 1 \<le> k2" by simp
    have "real k2 \<le> h2" using assms(2,3) by (simp add: k2_def)
    then have k2n: "k2 \<le> length s - 1" using assms(4) by linarith
    then have "k2 < length s" using assms(5) by (cases s) auto
    moreover have "min (k1 + 1) (length s - 1) \<le> k2" using lt by simp
    ultimately have mid: "s ! (min (k1 + 1) (length s - 1)) \<le> s ! k2"
      using assms(1) by (intro sorted_nth_mono) auto
    have "interp s h1 \<le> s ! (min (k1 + 1) (length s - 1))"
      using interp_bounds(2) [of s h1] assms by (simp add: k1_def)
    moreover have "s ! k2 \<le> interp s h2"
      using interp_bounds(1) [of s h2] assms by (simp add: k2_def)
    ultimately show ?thesis using mid by linarith
  qed
qed

lemma quartiles_ordered:
  assumes "quantile (1 / 4) xs = Some q1" "quantile (3 / 4) xs = Some q3"
  shows "q1 \<le> q3"
proof -
  define s where "s = sort (dropna xs)"
  from assms(1) have ne: "s \<noteq> []"
    by (auto simp: quantile_def s_def Let_def split: if_splits)
  have q1: "q1 = interp s (real (length s - 1) * (1 / 4))"
    using assms(1) ne by (simp add: quantile_def s_def [symmetric])
  have q3: "q3 = interp s (real (length s - 1) * (3 / 4))"
    using assms(2) ne by (simp add: quantile_def s_def [symmetric])
  have "sorted s" by (simp add: s_def)
  then show ?thesis
    unfolding q1 q3 using ne by (intro interp_mono) auto
qed

subsection \<open>The outlier mask\<close>

lemma series_of_nth:
  "distinct ls \<Longrightarrow> length bs = length ls \<Longrightarrow> i < length ls \<Longrightarrow> series_of ls bs (ls ! i) = Some (bs ! i)"
  by (simp add: series_of_def map_of_zip_nth)

lemma series_of_dom: "length bs = length ls \<Longrightarrow> series_of ls bs l \<noteq> None \<longleftrightarrow> l \<in> set ls"
  by (simp add: series_of_def map_of_zip_is_None)

lemma range_mask:
  "series_of [0..<N] (replicate N True) l = (if l < N then Some True else None)"
proof (cases "l < N")
  case True
  then show ?thesis
    using series_of_nth [of "[0..<N]" "replicate N True" l] by simp
next
  case False
  then show ?thesis
    using series_of_dom [of "replicate N True" "[0..<N]" l] by simp
qed

lemma mask_and_True: "mask_and a b l = Some True \<longleftrightarrow> a l = Some True \<and> b l = Some True"
  by (auto simp: mask_and_def)

lemma mask_and_dom: "mask_and a b l \<noteq> None \<longleftrightarrow> a l \<noteq> None \<or> b l \<noteq> None"
  by (auto simp: mask_and_def)

lemma fold_fence_True:
  "fold (fence_step idx) cols m l = Some True \<longleftrightarrow>
     m l = Some True \<and> (\<forall>(n, xs) \<in> set cols. \<forall>bs. fence_mask xs = Some bs \<longrightarrow> series_of idx bs l = Some True)"
  by (induction cols arbitrary: m) (auto simp: fence_step_def mask_and_True split: option.splits)

lemma fold_fence_dom:
  "fold (fence_step idx) cols m l \<noteq> None \<longleftrightarrow>
     m l \<noteq> None \<or> (\<exists>(n, xs) \<in> set cols. \<exists>bs. fence_mask xs = Some bs \<and> series_of idx bs l \<noteq> None)"
proof (induction cols arbitrary: m)
  case Nil
  then show ?case by simp
next
  case (Cons c cols)
  obtain n xs where c: "c = (n, xs)" by (cases c)
  show ?case
  proof (cases "fence_mask xs")
    case None
    then show ?thesis using Cons.IH [of m] by (simp add: c fence_step_def)
  next
    case (Some bs)
    then show ?thesis
      using Cons.IH [of "mask_and m (series_of idx bs)"] mask_and_dom [of m "series_of idx bs" l]
      by (auto simp: c fence_step_def)
  qed
qed

lemma fence_mask_length: "fence_mask xs = Some bs \<Longrightarrow> length bs = length xs"
  by (auto simp: fence_mask_def split: option.splits if_splits)

lemma outlier_mask_True:
  assumes "wf_frame df" "i < length (index df)"
  shows "outlier_mask df (index df ! i) = Some True \<longleftrightarrow>
           index df ! i < length (index df)
           \<and> (\<forall>(n, xs) \<in> set (numeric_cols df). \<forall>bs. fence_mask xs = Some bs \<longrightarrow> bs ! i)"
proof -
  have d: "distinct (index df)" using assms(1) by (simp add: wf_frame_def)
  have m0: "series_of [0..<length (index df)] (replicate (length (index df)) True) l = Some True
            \<longleftrightarrow> l < length (index df)" for l
    using range_mask [of "length (index df)" l] by (simp split: if_splits)
  have s: "series_of (index df) bs (index df ! i) = Some True \<longleftrightarrow> bs ! i"
    if "(n, xs) \<in> set (numeric_cols df)" "fence_mask xs = Some bs" for n xs bs
    using series_of_nth [OF d _ assms(2), of bs] fence_mask_length [OF that(2)]
          wf_numeric_length [OF assms(1) that(1)] by simp
  show ?thesis
    unfolding outlier_mask_def fold_fence_True m0 using s by (auto split: prod.splits)
qed

lemma outlier_mask_dom:
  assumes "wf_frame df" "l \<in> set (index df)"
  shows "outlier_mask df l \<noteq> None \<longleftrightarrow>
           l < length (index df) \<or> (\<exists>(n, xs) \<in> set (numeric_cols df). fence_mask xs \<noteq> None)"
proof -
  have "series_of (index df) bs l \<noteq> None"
    if "(n, xs) \<in> set (numeric_cols df)" "fence_mask xs = Some bs" for n xs bs
    using series_of_dom [of bs "index df" l] fence_mask_length [OF that(2)]
          wf_numeric_length [OF assms(1) that(1)] assms(2) by simp
  then show ?thesis
    unfolding outlier_mask_def fold_fence_dom range_mask by (auto split: if_splits) blast
qed

lemma remove_outliers_returns:
  assumes "wf_frame df"
      and "(\<exists>(n, xs) \<in> set (numeric_cols df). fence_mask xs \<noteq> None) \<or> (\<forall>l \<in> set (index df). l < length (index df))"
      and "index df \<noteq> []"
  shows "remove_outliers df = Inr (if numeric_cols df = [] then df else take_rows (kept_rows df) df)"
proof -
  have "list_all (\<lambda>l. outlier_mask df l \<noteq> None) (index df)"
    unfolding list_all_iff using outlier_mask_dom [OF assms(1)] assms(2) by blast
  then show ?thesis
    using assms(3) by (simp add: remove_outliers_def getitem_mask_def kept_rows_def)
qed

lemma in_kept_rows:
  assumes "wf_frame df"
  shows "i \<in> set (kept_rows df) \<longleftrightarrow>
           i < length (index df) \<and> index df ! i < length (index df)
           \<and> (\<forall>(n, xs) \<in> set (numeric_cols df). \<forall>bs. fence_mask xs = Some bs \<longrightarrow> bs ! i)"
  using outlier_mask_True [OF assms, of i]
  by (cases "i < length (index df)") (simp_all add: kept_rows_def)

lemma fence_mask_at:
  assumes "i < length xs"
  shows "(\<forall>bs. fence_mask xs = Some bs \<longrightarrow> bs ! i) \<longleftrightarrow>
         (\<forall>q1 q3. quantile (1 / 4) xs = Some q1 \<and> quantile (3 / 4) xs = Some q3 \<and> 0 < q3 - q1
              \<longrightarrow> in_fence q1 q3 (xs ! i))"
  using assms by (auto simp: fence_mask_def split: option.splits if_splits)

subsection \<open>Standard scaling\<close>






subsection \<open>The encoder's loop\<close>

lemma getcol_encode_col:
  "getcol (encode_col L m df) n = (if n = m then Option.bind (getcol df m) (encoded L) else getcol df n)"
  by (auto simp: encode_col_def encoded_def getcol_setcol getcol_dropcol split: option.splits)

lemma getcol_fold_encode:
  "distinct ns \<Longrightarrow>
   getcol (fold (encode_col L) ns df) n
     = (if n \<in> set ns then Option.bind (getcol df n) (encoded L) else getcol df n)"
  by (induction ns arbitrary: df) (auto simp: getcol_encode_col)




lemma distinct_categorical_cols: "distinct (names df) \<Longrightarrow> distinct (categorical_cols df)"
  by (simp add: categorical_cols_def names_def distinct_map_filter)

lemma in_categorical_cols:
  assumes "distinct (names df)"
  shows "n \<in> set (categorical_cols df) \<longleftrightarrow> n \<noteq> ''MOVIES'' \<and> (\<exists>cs. getcol df n = Some (ObjCol cs))"
proof -
  have "(\<exists>c. (n, c) \<in> set (columns df) \<and> \<not> is_numeric c) \<longleftrightarrow> (\<exists>cs. getcol df n = Some (ObjCol cs))"
  proof
    assume "\<exists>c. (n, c) \<in> set (columns df) \<and> \<not> is_numeric c"
    then obtain c where c: "(n, c) \<in> set (columns df)" "\<not> is_numeric c" by blast
    then obtain cs where "c = ObjCol cs" by (cases c) (auto simp: is_numeric_def)
    with c(1) show "\<exists>cs. getcol df n = Some (ObjCol cs)"
      using getcol_distinct [OF assms] by blast
  next
    assume "\<exists>cs. getcol df n = Some (ObjCol cs)"
    then obtain cs where "getcol df n = Some (ObjCol cs)" by blast
    then have "(n, ObjCol cs) \<in> set (columns df)" by (rule getcol_in_columns)
    moreover have "\<not> is_numeric (ObjCol cs)" by (simp add: is_numeric_def)
    ultimately show "\<exists>c. (n, c) \<in> set (columns df) \<and> \<not> is_numeric c" by blast
  qed
  moreover have "n \<in> set (categorical_cols df)
                 \<longleftrightarrow> n \<noteq> ''MOVIES'' \<and> (\<exists>c. (n, c) \<in> set (columns df) \<and> \<not> is_numeric c)"
    by (force simp: categorical_cols_def)
  ultimately show ?thesis by simp
qed

lemma getcol_encode_categorical:
  assumes "distinct (names df)"
  shows "getcol (encode_categorical L df) n
         = (if n \<noteq> ''MOVIES'' \<and> (\<exists>cs. getcol df n = Some (ObjCol cs))
            then Option.bind (getcol df n) (encoded L) else getcol df n)"
  by (simp add: encode_categorical_def getcol_fold_encode distinct_categorical_cols [OF assms]
        in_categorical_cols [OF assms])


lemma index_of_less: "x \<in> set xs \<Longrightarrow> index_of xs x < length xs"
  by (induction xs) auto

lemma nth_index_of: "x \<in> set xs \<Longrightarrow> xs ! index_of xs x = x"
  by (induction xs) auto

lemma index_of_inj:
  assumes "x \<in> set xs" "y \<in> set xs"
  shows "index_of xs x = index_of xs y \<longleftrightarrow> x = y"
proof
  assume eq: "index_of xs x = index_of xs y"
  have "x = xs ! index_of xs x" using assms(1) by (simp add: nth_index_of)
  also have "\<dots> = xs ! index_of xs y" by (simp only: eq)
  also have "\<dots> = y" using assms(2) by (simp add: nth_index_of)
  finally show "x = y" .
next
  assume "x = y"
  then show "index_of xs x = index_of xs y" by simp
qed

lemma label_encode_nth:
  "i < length ss \<Longrightarrow> label_encode ss ! i = Some (real (index_of (sort (remdups ss)) (ss ! i)))"
  by (simp add: label_encode_def Let_def)

lemma label_encode_codes:
  assumes "i < length ss" "j < length ss"
  shows "label_encode ss ! i = label_encode ss ! j \<longleftrightarrow> ss ! i = ss ! j"
    and "\<exists>k < length (remdups ss). label_encode ss ! i = Some (real k)"
proof -
  have mem: "ss ! i \<in> set (sort (remdups ss))" "ss ! j \<in> set (sort (remdups ss))"
    using assms by simp_all
  show "label_encode ss ! i = label_encode ss ! j \<longleftrightarrow> ss ! i = ss ! j"
    using index_of_inj [OF mem] assms by (simp add: label_encode_nth)
  show "\<exists>k < length (remdups ss). label_encode ss ! i = Some (real k)"
    using index_of_less [OF mem(1)] assms(1) by (simp add: label_encode_nth)
qed

subsection \<open>The loops of the missing-value handler\<close>

lemma handle_missing_values_unfold:
  "handle_missing_values L df =
     fold (modify_col fill_unknown)
       (filter (\<lambda>n. n \<in> set (names (dropna_columns (strip_names df)))) potential_cat_cols)
       (fold (modify_col fill_median)
          (filter (\<lambda>n. n \<in> set (names (dropna_columns (strip_names df)))) potential_num_cols)
          (fold (\<lambda>n. modify_col (\<lambda>c. NumCol (coerce_numeric L n c)) n)
             (filter (\<lambda>n. n \<in> set (names (dropna_columns (strip_names df)))) potential_num_cols)
             (dropna_columns (strip_names df))))"
  by (simp add: handle_missing_values_def Let_def)

lemma getcol_present:
  assumes "distinct (map strip (names df))" "(n', c) \<in> set (columns df)" "\<not> all_missing c"
  shows "getcol (dropna_columns (strip_names df)) (strip n') = Some c"
proof -
  have "distinct (map fst (map (\<lambda>(n, c). (strip n, c)) (columns df)))"
    using assms(1) by (simp add: names_def comp_def case_prod_unfold)
  then have "distinct (map fst (filter (\<lambda>(n, c). \<not> all_missing c) (map (\<lambda>(n, c). (strip n, c)) (columns df))))"
    by (rule distinct_map_filter)
  moreover have "(strip n', c) \<in> set (filter (\<lambda>(n, c). \<not> all_missing c) (map (\<lambda>(n, c). (strip n, c)) (columns df)))"
    using assms(2,3) by force
  ultimately show ?thesis
    by (simp add: getcol_def dropna_columns_def strip_names_def)
qed

lemma fillna_median_complete:
  assumes "Some r \<in> set ys"
  shows "None \<notin> set (fillna (median ys) ys)"
proof -
  have "dropna ys \<noteq> []" using assms by (induction ys rule: dropna.induct) auto
  then have "sort (dropna ys) \<noteq> []"
    by (metis length_sort length_0_conv)
  then have "median ys \<noteq> None"
    by (cases "odd (length (sort (dropna ys)))") (simp_all add: median_def Let_def del: length_sort)
  then obtain m where "median ys = Some m"
    by blast
  then show ?thesis
    by (auto simp: fillna_def split: option.splits)
qed

lemma fillna_median_none:
  assumes "\<forall>r. Some r \<notin> set ys"
  shows "\<forall>x \<in> set (fillna (median ys) ys). x = None"
proof -
  have "dropna ys = []" using assms by (induction ys rule: dropna.induct) auto
  then have "median ys = None" by (simp add: median_def)
  moreover have "x = None" if "x \<in> set ys" for x
  proof (cases x)
    case None
    then show ?thesis .
  next
    case (Some r)
    with that assms show ?thesis by blast
  qed
  ultimately show ?thesis
    by (auto simp: fillna_def split: option.splits)
qed

section \<open>The claims\<close>

subsection \<open>Loading and saving\<close>

text \<open>
  C8. Loading a path that does not exist raises \<^verbatim>\<open>FileNotFoundError\<close>. When the source
  \<^verbatim>\<open>movies.csv\<close> is absent, the run ends with that error and the file system is as it was,
  whatever the stages would do. In every run, either the run ends with an error and the
  file system is unchanged, or loading and every stage returned and the one change is the
  output file holding the final frame: the output is written only by a run that completes.
\<close>

theorem main_source_not_found:
  "(fs path = None \<longrightarrow> load_data read_csv fs path = Inl FileNotFoundError)
   \<and> (fs ''movies.csv'' = None \<longrightarrow> main L sv read_csv to_csv fs = (fs, Inl FileNotFoundError))
   \<and> ((\<exists>e. main L sv read_csv to_csv fs = (fs, Inl e))
      \<or> (\<exists>df df'. load_data read_csv fs ''movies.csv'' = Inr df \<and> stages L sv df = Inr df'
            \<and> main L sv read_csv to_csv fs = (fs(''cleaned_movies_data.csv'' \<mapsto> to_csv df'), Inr ())))"
  by (auto simp: main_def load_data_def save_cleaned_data_def split: option.splits sum.splits)

theorem main_source_not_found_witness:
  "\<forall>L sv. (Map.empty :: string \<rightharpoonup> frame) ''movies.csv'' = None
     \<and> load_data Inr (Map.empty :: string \<rightharpoonup> frame) ''movies.csv'' = Inl FileNotFoundError
     \<and> main L sv Inr id (Map.empty :: string \<rightharpoonup> frame) = (Map.empty, Inl FileNotFoundError)"
  using main_source_not_found [of "Map.empty :: string \<rightharpoonup> frame" "''movies.csv''" Inr _ _ id] by simp

subsection \<open>Outliers\<close>

lemma quartiles_example:
  "quantile (1 / 4) [Some 2000, Some 2010, Some 2020, None] = Some 2005"
  "quantile (3 / 4) [Some 2000, Some 2010, Some 2020, None] = Some 2015"
  by (simp_all add: quantile_def interp_def)

text \<open>
  C10. In a well-formed frame, take a numeric column whose quartiles exist and whose
  interquartile range is not zero. Then the outlier filter returns (it does not raise),
  the column has no missing value afterwards, and every row that held a missing value in
  that column is gone: a missing value fails both fence comparisons.
\<close>

theorem remove_outliers_drops_missing:
  assumes "wf_frame df" and "getcol df n = Some (NumCol xs)"
      and "quantile (1 / 4) xs = Some q1" and "quantile (3 / 4) xs = Some q3" and "q3 - q1 \<noteq> 0"
  shows "\<exists>df' ys. remove_outliers df = Inr df' \<and> getcol df' n = Some (NumCol ys) \<and> None \<notin> set ys
           \<and> (\<forall>i < length xs. xs ! i = None \<longrightarrow> index df ! i \<notin> set (index df'))"
proof -
  have pos: "0 < q3 - q1"
    using quartiles_ordered [OF assms(3,4)] assms(5) by simp
  define bs where "bs = map (in_fence q1 q3) xs"
  have fm: "fence_mask xs = Some bs"
    using assms(3,4) pos by (simp add: fence_mask_def bs_def)
  have mem: "(n, xs) \<in> set (numeric_cols df)"
    using assms(2) by (rule numeric_cols_getcol)
  then have ne: "numeric_cols df \<noteq> []" by auto
  have len: "length xs = length (index df)"
    using wf_numeric_length [OF assms(1) mem] .
  have "xs \<noteq> []" using assms(3) by (auto simp: quantile_def)
  with len have rows: "index df \<noteq> []" by auto
  define df' where "df' = take_rows (kept_rows df) df"
  have "\<exists>(n, xs) \<in> set (numeric_cols df). fence_mask xs \<noteq> None"
    using mem fm by auto
  then have ret: "remove_outliers df = Inr df'"
    using remove_outliers_returns [OF assms(1) disjI1 rows] ne by (simp add: df'_def)
  have col: "getcol df' n = Some (NumCol (map (\<lambda>i. xs ! i) (kept_rows df)))"
    by (simp add: df'_def getcol_take_rows assms(2) take_col_def)
  have present: "xs ! i \<noteq> None" if "i \<in> set (kept_rows df)" for i
  proof -
    from that have "i < length xs" and "bs ! i"
      using in_kept_rows [OF assms(1), of i] mem fm len by auto
    then have "in_fence q1 q3 (xs ! i)" by (simp add: bs_def)
    then show ?thesis by (auto simp: in_fence_def split: option.splits)
  qed
  then have nomiss: "None \<notin> set (map (\<lambda>i. xs ! i) (kept_rows df))" by force
  have sub: "set (kept_rows df) \<subseteq> {..<length (index df)}"
    by (auto simp: kept_rows_def)
  have d: "distinct (index df)" using assms(1) by (simp add: wf_frame_def)
  have gone: "index df ! i \<notin> set (index df')" if "i < length xs" "xs ! i = None" for i
    using index_take_rows_iff [OF d _ sub, of i] that present [of i] len by (auto simp: df'_def)
  show ?thesis
    using ret col nomiss gone by blast
qed

theorem remove_outliers_drops_missing_witness:
  "wf_frame \<lparr>index = [0, 1, 2, 3], columns = [(''YEAR_CLEANED'', NumCol [Some 2000, Some 2010, Some 2020, None])]\<rparr>
   \<and> quantile (1 / 4) [Some 2000, Some 2010, Some 2020, None] = Some 2005
   \<and> quantile (3 / 4) [Some 2000, Some 2010, Some 2020, None] = Some 2015
   \<and> (\<exists>df' ys. remove_outliers \<lparr>index = [0, 1, 2, 3], columns = [(''YEAR_CLEANED'', NumCol [Some 2000, Some 2010, Some 2020, None])]\<rparr> = Inr df'
         \<and> getcol df' ''YEAR_CLEANED'' = Some (NumCol ys) \<and> None \<notin> set ys \<and> 3 \<notin> set (index df'))"
proof -
  let ?xs = "[Some 2000, Some 2010, Some 2020, None] :: real option list"
  let ?D = "\<lparr>index = [0, 1, 2, 3], columns = [(''YEAR_CLEANED'', NumCol ?xs)]\<rparr>"
  have h1: "wf_frame ?D" by (simp add: wf_frame_def names_def col_len_def)
  have h2: "getcol ?D ''YEAR_CLEANED'' = Some (NumCol ?xs)" by (simp add: getcol_def)
  have h5: "(2015::real) - 2005 \<noteq> 0" by simp
  from remove_outliers_drops_missing [OF h1 h2 quartiles_example h5]
  obtain df' ys where r: "remove_outliers ?D = Inr df'" "getcol df' ''YEAR_CLEANED'' = Some (NumCol ys)"
      "None \<notin> set ys" "\<forall>i < length ?xs. ?xs ! i = None \<longrightarrow> index ?D ! i \<notin> set (index df')"
    by blast
  from r(4) [THEN spec, of 3] have "3 \<notin> set (index df')" by simp
  with r(1,2,3) h1 quartiles_example show ?thesis by blast
qed

subsection \<open>Column names\<close>

text \<open>
  C9. Column-name normalisation is a function of the names alone, and it is idempotent:
  normalising an already normalised list of names returns it unchanged, and so
  \<open>clean_column_names\<close> applied twice to a frame is \<open>clean_column_names\<close> applied once.
\<close>

theorem clean_column_names_idempotent:
  "map clean_name (map clean_name ns) = map clean_name ns
   \<and> names (clean_column_names df) = map clean_name (names df)
   \<and> clean_column_names (clean_column_names df) = clean_column_names df"
  by (simp add: clean_name_idem names_def clean_column_names_def case_prod_unfold comp_def)

subsection \<open>Missing values\<close>

lemma getcol_handle_missing_numeric:
  assumes "distinct (map strip (names df))"
      and "(n', c) \<in> set (columns df)" and "\<not> all_missing c"
      and "strip n' \<in> set potential_num_cols"
  shows "getcol (handle_missing_values L df) (strip n')
           = Some (NumCol (fillna (median (coerce_numeric L (strip n') c)) (coerce_numeric L (strip n') c)))"
proof -
  define n where "n = strip n'"
  define df1 where "df1 = dropna_columns (strip_names df)"
  define num_cols where "num_cols = filter (\<lambda>n. n \<in> set (names df1)) potential_num_cols"
  define cat_cols where "cat_cols = filter (\<lambda>n. n \<in> set (names df1)) potential_cat_cols"
  have g2: "getcol df1 n = Some c"
    unfolding n_def df1_def using assms(1,2,3) by (rule getcol_present)
  have dn: "distinct num_cols" by (simp add: num_cols_def potential_num_cols_def)
  have dc: "distinct cat_cols" by (simp add: cat_cols_def potential_cat_cols_def)
  have in_num: "n \<in> set num_cols"
    using assms(4) g2 by (simp add: num_cols_def names_getcol n_def)
  have "n \<notin> set potential_cat_cols"
    using assms(4) by (auto simp: n_def potential_num_cols_def potential_cat_cols_def)
  then have not_cat: "n \<notin> set cat_cols" by (simp add: cat_cols_def)
  have "getcol (handle_missing_values L df) n
        = map_option fill_median (map_option (\<lambda>c. NumCol (coerce_numeric L n c)) (getcol df1 n))"
    unfolding handle_missing_values_unfold df1_def [symmetric] num_cols_def [symmetric] cat_cols_def [symmetric]
    using getcol_fold_modify [OF dc, of "\<lambda>_. fill_unknown"]
          getcol_fold_modify [OF dn, of "\<lambda>_. fill_median"]
          getcol_fold_modify [OF dn, of "\<lambda>n c. NumCol (coerce_numeric L n c)"]
    by (simp add: in_num not_cat)
  then have "getcol (handle_missing_values L df) n
        = Some (NumCol (fillna (median (coerce_numeric L n c)) (coerce_numeric L n c)))"
    by (simp add: g2 fill_median_def)
  then show ?thesis
    by (simp only: n_def)
qed

lemma votes_example:
  "coerce_numeric \<lparr>to_float = dec_float, float_str = fs\<rparr> ''VOTES''
      (ObjCol [Str ''1,234'', Str ''  '', Str ''500'']) = [Some 1234, None, Some 500]"
  by (simp add: coerce_numeric_def to_numeric_def astype_str_def to_cells_def cell_str_def
        cell_to_float_def remove_char_def dec_float_def strip_def is_space_def is_digit_def)

lemma median_example: "median [Some 1234, None, Some 500] = Some 867"
  by (simp add: median_def)

text \<open>
  C1, as amended. Let the names of the frame differ after stripping, and let a column that
  holds at least one value be named (up to surrounding whitespace) \<^verbatim>\<open>RATING\<close>, \<^verbatim>\<open>VOTES\<close>,
  \<^verbatim>\<open>RunTime\<close> or \<^verbatim>\<open>Gross\<close>. After the handler that column is numeric and is the coerced
  column (the votes column with its commas removed first) with every gap filled by the
  median of the coerced values present. If at least one cell coerces to a number, no gap
  is left; if none does, every cell is missing. This holds whatever the number parser and
  the number formatter are.
\<close>

theorem handle_missing_values_numeric:
  assumes "distinct (map strip (names df))"
      and "(n', c) \<in> set (columns df)" and "\<not> all_missing c"
      and "strip n' \<in> set potential_num_cols"
  shows "getcol (handle_missing_values L df) (strip n')
           = Some (NumCol (fillna (median (coerce_numeric L (strip n') c)) (coerce_numeric L (strip n') c)))
       \<and> ((\<exists>r. Some r \<in> set (coerce_numeric L (strip n') c)) \<longrightarrow>
            None \<notin> set (fillna (median (coerce_numeric L (strip n') c)) (coerce_numeric L (strip n') c)))
       \<and> ((\<forall>r. Some r \<notin> set (coerce_numeric L (strip n') c)) \<longrightarrow>
            (\<forall>x \<in> set (fillna (median (coerce_numeric L (strip n') c)) (coerce_numeric L (strip n') c)).
               x = None))"
  using getcol_handle_missing_numeric [OF assms] fillna_median_complete fillna_median_none by blast

text \<open>
  The scenario of the specification: votes \<^verbatim>\<open>"1,234"\<close>, \<^verbatim>\<open>"  "\<close>, \<^verbatim>\<open>"500"\<close> become 1234, 867, 500.
\<close>

theorem handle_missing_values_numeric_witness:
  "\<forall>fs. getcol (handle_missing_values \<lparr>to_float = dec_float, float_str = fs\<rparr>
            \<lparr>index = [0, 1, 2], columns = [(''VOTES'', ObjCol [Str ''1,234'', Str ''  '', Str ''500''])]\<rparr>) ''VOTES''
        = Some (NumCol [Some 1234, Some 867, Some 500])"
proof
  fix fs
  let ?c = "ObjCol [Str ''1,234'', Str ''  '', Str ''500'']"
  let ?D = "\<lparr>index = [0, 1, 2], columns = [(''VOTES'', ?c)]\<rparr>"
  have s: "strip ''VOTES'' = ''VOTES''" by (simp add: strip_def is_space_def)
  have h1: "distinct (map strip (names ?D))" by (simp add: names_def)
  have h2: "(''VOTES'', ?c) \<in> set (columns ?D)" by simp
  have h3: "\<not> all_missing ?c" by (simp add: all_missing_def to_cells_def)
  have h4: "strip ''VOTES'' \<in> set potential_num_cols" by (simp add: s potential_num_cols_def)
  show "getcol (handle_missing_values \<lparr>to_float = dec_float, float_str = fs\<rparr> ?D) ''VOTES''
        = Some (NumCol [Some 1234, Some 867, Some 500])"
    using handle_missing_values_numeric [OF h1 h2 h3 h4, of "\<lparr>to_float = dec_float, float_str = fs\<rparr>"]
    by (simp add: s votes_example median_example fillna_def)
qed

text \<open>
  C1 as stated fails where no cell of the column coerces: the median of nothing is
  missing, filling with it changes nothing, and the column is left entirely missing.
\<close>

theorem handle_missing_values_leaves_gap:
  "\<forall>fs. getcol (handle_missing_values \<lparr>to_float = dec_float, float_str = fs\<rparr>
            \<lparr>index = [0], columns = [(''RATING'', ObjCol [Str ''abc''])]\<rparr>) ''RATING''
        = Some (NumCol [None])"
proof
  fix fs
  let ?c = "ObjCol [Str ''abc'']"
  let ?D = "\<lparr>index = [0], columns = [(''RATING'', ?c)]\<rparr>"
  have s: "strip ''RATING'' = ''RATING''" by (simp add: strip_def is_space_def)
  have h1: "distinct (map strip (names ?D))" by (simp add: names_def)
  have h2: "(''RATING'', ?c) \<in> set (columns ?D)" by simp
  have h3: "\<not> all_missing ?c" by (simp add: all_missing_def to_cells_def)
  have h4: "strip ''RATING'' \<in> set potential_num_cols" by (simp add: s potential_num_cols_def)
  have c: "coerce_numeric \<lparr>to_float = dec_float, float_str = fs\<rparr> ''RATING'' ?c = [None]"
    by (simp add: coerce_numeric_def to_numeric_def cell_to_float_def dec_float_def strip_def
          is_space_def is_digit_def)
  show "getcol (handle_missing_values \<lparr>to_float = dec_float, float_str = fs\<rparr> ?D) ''RATING''
        = Some (NumCol [None])"
    using getcol_handle_missing_numeric [OF h1 h2 h3 h4, of "\<lparr>to_float = dec_float, float_str = fs\<rparr>"]
    by (simp add: s c median_def fillna_def)
qed

text \<open>
  In \<^verbatim>\<open>main\<close> the handler runs after \<open>clean_column_names\<close>, which has turned \<^verbatim>\<open>RunTime\<close> into
  \<^verbatim>\<open>RUNTIME\<close> (and \<^verbatim>\<open>Gross\<close> into \<^verbatim>\<open>GROSS\<close>, \<^verbatim>\<open>ONE-LINE\<close> into \<^verbatim>\<open>ONE_LINE\<close>): the handler's
  mixed-case names no longer match, and such a column passes through untouched.
\<close>

lemma renamed_column_not_coerced:
  "\<forall>L. handle_missing_values L (clean_column_names
           \<lparr>index = [0, 1], columns = [(''RunTime'', ObjCol [Str ''90'', NaN])]\<rparr>)
        = \<lparr>index = [0, 1], columns = [(''RUNTIME'', ObjCol [Str ''90'', NaN])]\<rparr>"
proof
  fix L
  have c: "clean_name ''RunTime'' = ''RUNTIME''"
    by code_simp
  have s: "strip ''RUNTIME'' = ''RUNTIME''" by (simp add: strip_def is_space_def)
  have d: "dropna_columns (strip_names (clean_column_names \<lparr>index = [0, 1], columns = [(''RunTime'', ObjCol [Str ''90'', NaN])]\<rparr>))
            = \<lparr>index = [0, 1], columns = [(''RUNTIME'', ObjCol [Str ''90'', NaN])]\<rparr>"
    by (simp add: clean_column_names_def c strip_names_def s dropna_columns_def all_missing_def to_cells_def)
  show "handle_missing_values L (clean_column_names
           \<lparr>index = [0, 1], columns = [(''RunTime'', ObjCol [Str ''90'', NaN])]\<rparr>)
        = \<lparr>index = [0, 1], columns = [(''RUNTIME'', ObjCol [Str ''90'', NaN])]\<rparr>"
    unfolding handle_missing_values_unfold d
    by (simp add: names_def potential_num_cols_def potential_cat_cols_def)
qed

subsection \<open>Year extraction\<close>

text \<open>
  C5. The primary extraction works: \<^verbatim>\<open>"(2015)"\<close> yields 2015. The fallback does not: in
  the row whose year cell is \<^verbatim>\<open>"N/A"\<close> and whose title is \<^verbatim>\<open>"Movie X (2016)"\<close> the derived year
  stays missing. The frame returned by \<^verbatim>\<open>str.extract\<close> has one column, labelled 0; the
  assignment through \<^verbatim>\<open>.loc\<close> looks for a column labelled \<^verbatim>\<open>YEAR_CLEANED\<close> in it, finds none
  and assigns \<^verbatim>\<open>NaN\<close>.
\<close>

theorem fallback_year_not_used:
  "\<forall>fs. extract_year_info \<lparr>to_float = dec_float, float_str = fs\<rparr>
          \<lparr>index = [0, 1],
           columns = [(''MOVIES'', ObjCol [Str ''Movie X (2016)'', Str ''Movie X (2016)'']),
                      (''YEAR'', ObjCol [Str ''(2015)'', Str ''N/A''])]\<rparr>
        = Inr \<lparr>index = [0, 1],
               columns = [(''MOVIES'', ObjCol [Str ''Movie X (2016)'', Str ''Movie X (2016)'']),
                          (''YEAR'', ObjCol [Str ''(2015)'', Str ''N/A'']),
                          (''YEAR_CLEANED'', NumCol [Some 2015, None])]\<rparr>"
  by (simp add: extract_year_info_def getcol_def setcol_def astype_str_def to_cells_def cell_str_def
        str_extract_def to_numeric_def cell_to_float_def dec_float_def strip_def is_space_def
        is_digit_def loc_assign_frame_def Let_def)

subsection \<open>Outliers after duplicates were removed\<close>

lemma remove_outliers_raises_example:
  "remove_outliers \<lparr>index = [0, 2], columns = [(''T'', ObjCol [Str ''a'', Str ''b'']), (''X'', NumCol [Some 1, Some 1])]\<rparr>
     = Inl IndexingError"
proof -
  let ?xs = "[Some 1, Some 1] :: real option list"
  let ?D = "\<lparr>index = [0, 2], columns = [(''T'', ObjCol [Str ''a'', Str ''b'']), (''X'', NumCol ?xs)]\<rparr>"
  have q: "quantile (1 / 4) ?xs = Some 1" "quantile (3 / 4) ?xs = Some 1"
    by (simp_all add: quantile_def interp_def)
  have fm: "fence_mask ?xs = None"
    by (simp add: fence_mask_def q)
  have nc: "numeric_cols ?D = [(''X'', ?xs)]" by (simp add: numeric_cols_def)
  have r: "[0..<length (index ?D)] = [0, 1]" by code_simp
  have m: "outlier_mask ?D = series_of [0, 1] [True, True]"
    unfolding outlier_mask_def nc r by (simp add: fence_step_def fm)
  show ?thesis
    unfolding remove_outliers_def nc m by (simp add: getitem_mask_def series_of_def)
qed

text \<open>
  C2. Removing the duplicate row 1 of a three-row frame leaves the rows labelled 0 and 2.
  Both values of the column \<open>X\<close> lie within its fences and its interquartile range is
  positive, yet the outlier filter removes the row labelled 2: the initial mask is
  labelled 0 and 1, so the conjunction is false at label 2. When no column has a positive
  interquartile range the mask keeps the labels 0 and 1, and selecting with it raises
  \<^verbatim>\<open>IndexingError\<close>.
\<close>

theorem remove_outliers_after_dedup:
  "remove_duplicates \<lparr>index = [0, 1, 2], columns = [(''X'', NumCol [Some 1, Some 1, Some 2])]\<rparr>
     = \<lparr>index = [0, 2], columns = [(''X'', NumCol [Some 1, Some 2])]\<rparr>
   \<and> fence_mask [Some 1, Some 2] = Some [True, True]
   \<and> remove_outliers \<lparr>index = [0, 2], columns = [(''X'', NumCol [Some 1, Some 2])]\<rparr>
     = Inr \<lparr>index = [0], columns = [(''X'', NumCol [Some 1])]\<rparr>
   \<and> remove_outliers \<lparr>index = [0, 2], columns = [(''T'', ObjCol [Str ''a'', Str ''b'']), (''X'', NumCol [Some 1, Some 1])]\<rparr>
     = Inl IndexingError"
proof -
  let ?xs = "[Some 1, Some 2] :: real option list"
  let ?D = "\<lparr>index = [0, 2], columns = [(''X'', NumCol ?xs)]\<rparr>"
  have dd: "remove_duplicates \<lparr>index = [0, 1, 2], columns = [(''X'', NumCol [Some 1, Some 1, Some 2])]\<rparr> = ?D"
    by code_simp
  have q: "quantile (1 / 4) ?xs = Some (5 / 4)" "quantile (3 / 4) ?xs = Some (7 / 4)"
    by (simp_all add: quantile_def interp_def)
  have fm: "fence_mask ?xs = Some [True, True]"
    by (simp add: fence_mask_def q in_fence_def)
  have nc: "numeric_cols ?D = [(''X'', ?xs)]" by (simp add: numeric_cols_def)
  have r: "[0..<length (index ?D)] = [0, 1]" by code_simp
  have m: "outlier_mask ?D = mask_and (series_of [0, 1] [True, True]) (series_of [0, 2] [True, True])"
    unfolding outlier_mask_def nc r by (simp add: fence_step_def fm)
  have k: "kept_rows ?D = [0]"
    unfolding kept_rows_def r m by (simp add: mask_and_def series_of_def)
  have w: "wf_frame ?D" by (simp add: wf_frame_def names_def col_len_def)
  have f: "\<exists>(n, xs) \<in> set (numeric_cols ?D). fence_mask xs \<noteq> None"
    unfolding nc by (simp add: fm)
  have "remove_outliers ?D = Inr \<lparr>index = [0], columns = [(''X'', NumCol [Some 1])]\<rparr>"
    using remove_outliers_returns [OF w disjI1 [OF f]] unfolding nc k
    by (simp add: take_rows_def take_col_def)
  with dd fm remove_outliers_raises_example show ?thesis by simp
qed

text \<open>
  On a well-formed frame whose rows are labelled \<open>0, ..., n - 1\<close>, as before any duplicate
  was removed, the filter returns, and a row survives exactly when its value lies within
  the fence of every numeric column with a positive interquartile range, the quartiles
  being those of the frame as it came in.
\<close>

lemma remove_outliers_default_labels:
  assumes "wf_frame df" and "index df = [0..<length (index df)]"
  shows "\<exists>df'. remove_outliers df = Inr df'
           \<and> (\<forall>i < length (index df).
                 i \<in> set (index df') \<longleftrightarrow>
                   (\<forall>(n, xs) \<in> set (numeric_cols df). \<forall>q1 q3.
                       quantile (1 / 4) xs = Some q1 \<and> quantile (3 / 4) xs = Some q3 \<and> 0 < q3 - q1
                       \<longrightarrow> in_fence q1 q3 (xs ! i)))"
proof (cases "index df = []")
  case True
  then show ?thesis by (simp add: remove_outliers_def)
next
  case False
  define N where "N = length (index df)"
  have idx: "index df = [0..<N]" using assms(2) by (simp add: N_def)
  have nth: "index df ! k = k" if "k < N" for k using that by (simp add: idx)
  have "\<forall>l \<in> set (index df). l < N"
    unfolding idx by simp
  then have "\<forall>l \<in> set (index df). l < length (index df)"
    by (simp only: N_def)
  then have ret: "remove_outliers df = Inr (if numeric_cols df = [] then df else take_rows (kept_rows df) df)"
    using remove_outliers_returns [OF assms(1) disjI2 False] by simp
  have sub: "set (kept_rows df) \<subseteq> {..<N}" by (auto simp: kept_rows_def N_def)
  have "map (\<lambda>k. index df ! k) (kept_rows df) = kept_rows df"
    using sub nth by (intro map_idI) auto
  then have idx1: "index (take_rows (kept_rows df) df) = kept_rows df" by (simp add: index_take_rows)
  have kept: "i \<in> set (kept_rows df) \<longleftrightarrow>
                (\<forall>(n, xs) \<in> set (numeric_cols df). \<forall>q1 q3.
                    quantile (1 / 4) xs = Some q1 \<and> quantile (3 / 4) xs = Some q3 \<and> 0 < q3 - q1
                    \<longrightarrow> in_fence q1 q3 (xs ! i))"
    if "i < N" for i
  proof -
    have a: "i \<in> set (kept_rows df) \<longleftrightarrow>
            (\<forall>(n, xs) \<in> set (numeric_cols df). \<forall>bs. fence_mask xs = Some bs \<longrightarrow> bs ! i)"
      using in_kept_rows [OF assms(1), of i] that nth [OF that] by (simp add: N_def)
    have fence: "(\<forall>bs. fence_mask xs = Some bs \<longrightarrow> bs ! i) \<longleftrightarrow>
               (\<forall>q1 q3. quantile (1 / 4) xs = Some q1 \<and> quantile (3 / 4) xs = Some q3 \<and> 0 < q3 - q1
                    \<longrightarrow> in_fence q1 q3 (xs ! i))"
      if "(n, xs) \<in> set (numeric_cols df)" for n xs
      using wf_numeric_length [OF assms(1) that] \<open>i < N\<close> by (intro fence_mask_at) (simp add: N_def)
    show ?thesis
      unfolding a using fence by blast
  qed
  show ?thesis
  proof (cases "numeric_cols df = []")
    case True
    have "i \<in> set (index df)" if "i < N" for i using that by (simp add: idx)
    then show ?thesis using ret True by (simp add: N_def)
  next
    case nn: False
    show ?thesis using ret nn idx1 kept by (simp add: N_def)
  qed
qed

subsection \<open>A missing derived year in the later stages\<close>




subsection \<open>Encoding\<close>

text \<open>
  C6, as amended. In a frame with distinct column names, take an object column other
  than \<^verbatim>\<open>MOVIES\<close>. If it has at most one distinct value among its cells present, the
  encoder drops it. Otherwise it becomes a numeric column holding, for every cell, the
  position of the cell's text (\<^verbatim>\<open>nan\<close> for a missing cell) among the sorted distinct
  texts of the column: two cells get the same code exactly when their texts are equal,
  and the codes are natural numbers below the number of distinct texts. The encoder is a
  function of the frame, so identical input gives identical codes.
\<close>

theorem encode_categorical_column:
  assumes "distinct (names df)" and "getcol df n = Some (ObjCol cs)" and "n \<noteq> ''MOVIES''"
  shows "(nunique cs \<le> 1 \<longrightarrow> n \<notin> set (names (encode_categorical L df)))
       \<and> (1 < nunique cs \<longrightarrow>
            getcol (encode_categorical L df) n = Some (NumCol (label_encode (map (cell_str L) cs)))
            \<and> (\<forall>i < length cs. \<forall>j < length cs.
                 (label_encode (map (cell_str L) cs) ! i = label_encode (map (cell_str L) cs) ! j
                   \<longleftrightarrow> cell_str L (cs ! i) = cell_str L (cs ! j))
                 \<and> (\<exists>k < length (remdups (map (cell_str L) cs)).
                        label_encode (map (cell_str L) cs) ! i = Some (real k))))"
proof -
  have g: "getcol (encode_categorical L df) n = encoded L (ObjCol cs)"
    using assms by (simp add: getcol_encode_categorical)
  have e: "encoded L (ObjCol cs)
           = (if 1 < nunique cs then Some (NumCol (label_encode (map (cell_str L) cs))) else None)"
    by (simp add: encoded_def to_cells_def astype_str_def)
  have drop: "n \<notin> set (names (encode_categorical L df))" if "nunique cs \<le> 1"
    using that by (simp add: names_getcol g e)
  have keep: "getcol (encode_categorical L df) n = Some (NumCol (label_encode (map (cell_str L) cs)))"
    if "1 < nunique cs"
    using that by (simp add: g e)
  have codes: "(label_encode (map (cell_str L) cs) ! i = label_encode (map (cell_str L) cs) ! j
                   \<longleftrightarrow> cell_str L (cs ! i) = cell_str L (cs ! j))
                 \<and> (\<exists>k < length (remdups (map (cell_str L) cs)).
                        label_encode (map (cell_str L) cs) ! i = Some (real k))"
    if "i < length cs" "j < length cs" for i j
    using label_encode_codes [of i "map (cell_str L) cs" j] that by simp
  show ?thesis
    using drop keep codes by blast
qed

text \<open>
  The scenario of the specification: the column \<^verbatim>\<open>["A", "A", "A"]\<close> is dropped.
\<close>

theorem encode_categorical_column_witness:
  "\<forall>L. ''A'' \<notin> set (names (encode_categorical L
           \<lparr>index = [0, 1, 2],
            columns = [(''A'', ObjCol [Str ''A'', Str ''A'', Str ''A'']), (''B'', ObjCol [Str ''y'', Str ''x'', Str ''y''])]\<rparr>))
      \<and> getcol (encode_categorical L
           \<lparr>index = [0, 1, 2],
            columns = [(''A'', ObjCol [Str ''A'', Str ''A'', Str ''A'']), (''B'', ObjCol [Str ''y'', Str ''x'', Str ''y''])]\<rparr>) ''B''
         = Some (NumCol [Some 1, Some 0, Some 1])"
proof
  fix L
  let ?a = "[Str ''A'', Str ''A'', Str ''A'']"
  let ?b = "[Str ''y'', Str ''x'', Str ''y'']"
  let ?D = "\<lparr>index = [0, 1, 2], columns = [(''A'', ObjCol ?a), (''B'', ObjCol ?b)]\<rparr>"
  have h1: "distinct (names ?D)" by (simp add: names_def)
  have a: "getcol ?D ''A'' = Some (ObjCol ?a)" by (simp add: getcol_def)
  have b: "getcol ?D ''B'' = Some (ObjCol ?b)" by (simp add: getcol_def)
  have na: "nunique ?a = 1" by (simp add: nunique_def)
  have nb: "nunique ?b = 2" by (simp add: nunique_def)
  have lb: "label_encode (map (cell_str L) ?b) = [Some 1, Some 0, Some 1]"
    by (simp add: label_encode_def cell_str_def)
  have "''A'' \<notin> set (names (encode_categorical L ?D))"
    using encode_categorical_column [OF h1 a, of L] by (simp add: na)
  moreover have "getcol (encode_categorical L ?D) ''B'' = Some (NumCol (label_encode (map (cell_str L) ?b)))"
    using encode_categorical_column [OF h1 b, of L] by (simp add: nb)
  then have "getcol (encode_categorical L ?D) ''B'' = Some (NumCol [Some 1, Some 0, Some 1])"
    by (simp only: lb)
  ultimately show "''A'' \<notin> set (names (encode_categorical L ?D))
      \<and> getcol (encode_categorical L ?D) ''B'' = Some (NumCol [Some 1, Some 0, Some 1])"
    by simp
qed

text \<open>
  C6 as stated fails for columns with gaps: a column without any value present does not
  have exactly one distinct value, and a column with one value and one gap has two
  distinct cells; the claim has both encoded, the encoder drops both.
\<close>

theorem encode_categorical_drops_gappy_columns:
  "\<forall>L. encode_categorical L
          \<lparr>index = [0, 1], columns = [(''C'', ObjCol [NaN, NaN]), (''D'', ObjCol [Str ''A'', NaN])]\<rparr>
        = \<lparr>index = [0, 1], columns = []\<rparr>"
  by (simp add: encode_categorical_def categorical_cols_def is_numeric_def encode_col_def
        getcol_def dropcol_def to_cells_def nunique_def)

subsection \<open>Scaling\<close>

text \<open>
  C3. The encoder writes the codes under the column's own name, so no encoded column
  ends in \<^verbatim>\<open>_ENCODED\<close> unless its name did before, and the scaler's exclusion does not
  apply to it: the codes 0 and 1 of a two-valued genre column are handed to the scaler,
  whatever its arithmetic, and come back as what the scaler makes of them; standardised
  exactly, as \<^verbatim>\<open>float64\<close> does on these two values, they are -1 and 1.
\<close>

theorem encoded_column_is_scaled:
  "(\<forall>L sv. scale_features sv (encode_categorical L
          \<lparr>index = [0, 1], columns = [(''GENRE'', ObjCol [Str ''Action'', Str ''Drama''])]\<rparr>)
        = Inr \<lparr>index = [0, 1], columns = [(''GENRE'', NumCol [Some (sv [0, 1] 0), Some (sv [0, 1] 1)])]\<rparr>)
   \<and> (\<forall>L. scale_features exact_scale (encode_categorical L
          \<lparr>index = [0, 1], columns = [(''GENRE'', ObjCol [Str ''Action'', Str ''Drama''])]\<rparr>)
        = Inr \<lparr>index = [0, 1], columns = [(''GENRE'', NumCol [Some (- 1), Some 1])]\<rparr>)"
proof -
  let ?D = "\<lparr>index = [0, 1], columns = [(''GENRE'', ObjCol [Str ''Action'', Str ''Drama''])]\<rparr>"
  have e: "encode_categorical L ?D = \<lparr>index = [0, 1], columns = [(''GENRE'', NumCol [Some 0, Some 1])]\<rparr>"
    for L
    by (simp add: encode_categorical_def categorical_cols_def is_numeric_def encode_col_def
          getcol_def setcol_def to_cells_def nunique_def astype_str_def cell_str_def label_encode_def)
  have g: "scale_features sv (encode_categorical L ?D)
        = Inr \<lparr>index = [0, 1], columns = [(''GENRE'', NumCol [Some (sv [0, 1] 0), Some (sv [0, 1] 1)])]\<rparr>"
    for L sv
    unfolding e
    by (simp add: scale_features_def numeric_cols_def endswith_def scale_col_def standard_scale_def)
  have s: "std [0, 1] = 1 / 2" "mean [0, 1] = 1 / 2"
    by (simp_all add: std_def variance_def mean_def power2_eq_square real_sqrt_divide)
  have x: "exact_scale [0, 1] 0 = - 1" "exact_scale [0, 1] 1 = 1"
    by (simp_all add: exact_scale_def s)
  show ?thesis
    using g x by simp
qed

end
